theory Spec2Isabelle
  imports Complex_Main "HOL-Library.Multiset"
begin

section \<open>Python values used by the notebook\<close>

text \<open>
  The notebook \<^verbatim>\<open>notebook/machineLearning.ipynb\<close> is a straight-line script in three
  stages: dataset preparation (cells 7 to 27), model definition, training and export
  (cells 33 to 44), and an inference helper (cell 47). Every exception a cell can raise is
  a value of \<open>py_error\<close>; a cell that can raise returns \<open>py_error + 'a\<close>.
\<close>

datatype py_error = KeyError | ValueError | IndexError

text \<open>
  A Python \<^verbatim>\<open>dict\<close> is an association list in insertion order with one entry per key:
  \<^verbatim>\<open>d[k] = v\<close> overwrites the value of a present key in place and appends a new key,
  \<^verbatim>\<open>d[k]\<close> raises \<^verbatim>\<open>KeyError\<close> on a missing key.
\<close>

fun dict_setitem :: "'k \<Rightarrow> 'v \<Rightarrow> ('k \<times> 'v) list \<Rightarrow> ('k \<times> 'v) list" where
  "dict_setitem k v [] = [(k, v)]"
| "dict_setitem k v ((k', v') # d) =
     (if k' = k then (k, v) # d else (k', v') # dict_setitem k v d)"

definition dict_getitem :: "('k \<times> 'v) list \<Rightarrow> 'k \<Rightarrow> py_error + 'v" where
  "dict_getitem d k = (case map_of d k of None \<Rightarrow> Inl KeyError | Some v \<Rightarrow> Inr v)"

text \<open>
  \<^verbatim>\<open>'%i' % v\<close> and \<^verbatim>\<open>str(i)\<close> on a non-negative integer: its decimal digits.
  Class indices and vocabulary indices are never negative, so they are naturals.
\<close>

fun str_nat :: "nat \<Rightarrow> string" where
  "str_nat n =
     (if n < 10 then [''0123456789'' ! n]
      else str_nat (n div 10) @ [''0123456789'' ! (n mod 10)])"

declare str_nat.simps [simp del]

section \<open>Dataset preparation\<close>

subsection \<open>Cell 7: the label legend\<close>

text \<open>
  \<^verbatim>\<open>
  labelLegend = {'ham': 0, 'spam': 1}
  labelLegendInverted = {'%i' % v: k for k,v in labelLegend.items()}
  labelsAsInt = [labelLegend[x] for x in labels]
  \<close>
  The inverted legend is keyed by the decimal string of the class index.
\<close>

definition labelLegend :: "(string \<times> nat) list" where
  "labelLegend = [(''ham'', 0), (''spam'', 1)]"

definition labelLegendInverted :: "(string \<times> string) list" where
  "labelLegendInverted = foldl (\<lambda>d (k, v). dict_setitem (str_nat v) k d) [] labelLegend"

fun labelsAsInt :: "string list \<Rightarrow> py_error + nat list" where
  "labelsAsInt [] = Inr []"
| "labelsAsInt (x # labels) =
     (case dict_getitem labelLegend x of
        Inl e \<Rightarrow> Inl e
      | Inr v \<Rightarrow> (case labelsAsInt labels of Inl e \<Rightarrow> Inl e | Inr vs \<Rightarrow> Inr (v # vs)))"

subsection \<open>Cell 11: the tokenizer\<close>

text \<open>
  \<^verbatim>\<open>
  MAX_NUM_WORDS = 280
  tokenizer = Tokenizer(num_words=MAX_NUM_WORDS)
  tokenizer.fit_on_texts(texts)
  sequences = tokenizer.texts_to_sequences(texts)
  \<close>
  \<^verbatim>\<open>Tokenizer\<close> belongs to the Keras library
  (\<^verbatim>\<open>tensorflow.keras.preprocessing.text\<close>), which the notebook imports and which is
  not among the repository's files. The definitions of this subsection follow the
  library's published behaviour under the arguments the notebook passes (all other
  constructor arguments at their defaults: the standard filter characters, lower-casing,
  split on a blank, word level, no out-of-vocabulary token).
\<close>

definition MAX_NUM_WORDS :: nat where
  "MAX_NUM_WORDS = 280"

text \<open>
  Modelled from the spec: the vocabulary is a "mapping from word to a positive integer
  index"; the tokenizer class of the Keras library is missing from the sources. The
  default \<^verbatim>\<open>filters\<close> of the library, each replaced by the split character:
  \<^verbatim>\<open>!"#$%&()*+,-./:;<=>?@[\]^_`{|}~\<close>, tab and newline (the apostrophe is kept).
\<close>

definition filters :: string where
  "filters =
     [CHR 0x21, CHR 0x22, CHR 0x23, CHR 0x24, CHR 0x25, CHR 0x26,
      CHR 0x28, CHR 0x29, CHR 0x2A, CHR 0x2B, CHR 0x2C, CHR 0x2D, CHR 0x2E, CHR 0x2F,
      CHR 0x3A, CHR 0x3B, CHR 0x3C, CHR 0x3D, CHR 0x3E, CHR 0x3F, CHR 0x40,
      CHR 0x5B, CHR 0x5C, CHR 0x5D, CHR 0x5E, CHR 0x5F, CHR 0x60,
      CHR 0x7B, CHR 0x7C, CHR 0x7D, CHR 0x7E, CHR 0x09, CHR 0x0A]"

text \<open>
  Modelled from the spec: \<^verbatim>\<open>str.lower\<close> as the library applies it before splitting
  (the lower-casing of the missing tokenizer), on the letters A to Z; every other
  character is left as it is (texts are taken as ASCII).
\<close>

definition lower_char :: "char \<Rightarrow> char" where
  "lower_char c =
     (let n = (of_char c :: nat) in if 65 \<le> n \<and> n \<le> 90 then char_of (n + 32) else c)"

text \<open>
  \<^verbatim>\<open>str.split(sep)\<close> with an explicit one-character separator: one piece more than
  there are separators, empty pieces kept.
\<close>

fun split_sep :: "char \<Rightarrow> string \<Rightarrow> string list" where
  "split_sep sep [] = [[]]"
| "split_sep sep (c # cs) =
     (if c = sep then [] # split_sep sep cs
      else (case split_sep sep cs of [] \<Rightarrow> [[c]] | w # ws \<Rightarrow> (c # w) # ws))"

text \<open>
  Modelled from the spec: the word splitting of the missing tokenizer
  (\<^verbatim>\<open>text_to_word_sequence\<close> of the Keras library): lower-case the text, turn every
  filter character into a blank, split on blanks, drop the empty pieces.
\<close>

definition text_to_word_sequence :: "string \<Rightarrow> string list" where
  "text_to_word_sequence input_text =
     filter (\<lambda>i. i \<noteq> [])
       (split_sep (CHR '' '')
          (map (\<lambda>c. if c \<in> set filters then CHR '' '' else c) (map lower_char input_text)))"

text \<open>
  Modelled from the spec: the "vocabulary (tokenizer)" object, whose class is missing
  from the sources. It holds the cap \<^verbatim>\<open>num_words\<close> (\<^verbatim>\<open>None\<close> or a number), the
  number of texts seen, the word counts in order of first occurrence (an
  \<^verbatim>\<open>OrderedDict\<close>) and the word index. (The document frequencies the library also keeps
  play no part in the conversion and are left out.) A new tokenizer has seen nothing.
\<close>

record Tokenizer =
  num_words :: "nat option"
  document_count :: nat
  word_counts :: "(string \<times> nat) list"
  word_index :: "(string \<times> nat) list"

definition Tokenizer_init :: "nat option \<Rightarrow> Tokenizer" where
  "Tokenizer_init n =
     \<lparr>num_words = n, document_count = 0, word_counts = [], word_index = []\<rparr>"

text \<open>
  Modelled from the spec: the counting step of the missing \<^verbatim>\<open>fit_on_texts\<close>, which
  adds one to the count of a word already seen and enters a new word with count 1 at the
  end.
\<close>

fun count_word :: "(string \<times> nat) list \<Rightarrow> string \<Rightarrow> (string \<times> nat) list" where
  "count_word [] w = [(w, 1)]"
| "count_word ((k, c) # d) w = (if k = w then (k, c + 1) # d else (k, c) # count_word d w)"

text \<open>
  Modelled from the spec: "build vocabulary from all texts (frequency-ranked ...)";
  \<^verbatim>\<open>Tokenizer.fit_on_texts\<close> of the Keras library is missing from the sources. The
  library counts every word of every text, sorts the words by falling count with a stable
  sort (ties stay in order of first occurrence) and numbers ALL of them from 1; index 0 is
  never given to a word. The cap \<^verbatim>\<open>num_words\<close> is not applied here but in the
  conversion below.
\<close>

definition fit_on_texts :: "Tokenizer \<Rightarrow> string list \<Rightarrow> Tokenizer" where
  "fit_on_texts self texts =
     (let wc = foldl (\<lambda>d text. foldl count_word d (text_to_word_sequence text))
                 (word_counts self) texts;
          wcounts = sort_key (\<lambda>(w, c). - int c) wc;
          sorted_voc = map fst wcounts
      in self\<lparr>document_count := document_count self + length texts,
               word_counts := wc,
               word_index := zip sorted_voc [1 ..< Suc (length sorted_voc)]\<rparr>)"

text \<open>
  Modelled from the spec: the test of the missing \<^verbatim>\<open>texts_to_sequences\<close> for the cap
  ("capped at a configured maximum size"). The library applies the cap only when it is
  set and not 0, and then to every index that is \<^verbatim>\<open>num_words\<close> or more.
\<close>

definition beyond_cap :: "nat option \<Rightarrow> nat \<Rightarrow> bool" where
  "beyond_cap n i = (case n of None \<Rightarrow> False | Some m \<Rightarrow> m \<noteq> 0 \<and> m \<le> i)"

text \<open>
  Modelled from the spec: "convert each text to a sequence of vocabulary indices,
  dropping out-of-vocabulary words"; \<^verbatim>\<open>Tokenizer.texts_to_sequences\<close> of the Keras
  library is missing from the sources. A word without an index, and a word whose index
  is \<^verbatim>\<open>num_words\<close> or more, adds nothing to the sequence (no out-of-vocabulary token is
  configured). The method reads the tokenizer and does not assign to it.
\<close>

definition text_to_sequence :: "Tokenizer \<Rightarrow> string \<Rightarrow> nat list" where
  "text_to_sequence self text =
     concat (map (\<lambda>w. case map_of (word_index self) w of
                         None \<Rightarrow> []
                       | Some i \<Rightarrow> if beyond_cap (num_words self) i then [] else [i])
                 (text_to_word_sequence text))"

definition texts_to_sequences :: "Tokenizer \<Rightarrow> string list \<Rightarrow> nat list list" where
  "texts_to_sequences self texts = map (text_to_sequence self) texts"

subsection \<open>Cell 15: padding\<close>

text \<open>
  \<^verbatim>\<open>
  MAX_SEQ_LENGTH = 300
  X = pad_sequences(sequences, maxlen=MAX_SEQ_LENGTH)
  \<close>
\<close>

definition MAX_SEQ_LENGTH :: nat where
  "MAX_SEQ_LENGTH = 300"

text \<open>
  Modelled from the spec: "left-pad/truncate every sequence to a fixed length";
  \<^verbatim>\<open>pad_sequences\<close> of the Keras library is missing from the sources. With the
  library's defaults (\<^verbatim>\<open>padding='pre'\<close>, \<^verbatim>\<open>truncating='pre'\<close>, \<^verbatim>\<open>value=0\<close>) a row
  is \<^verbatim>\<open>s[-maxlen:]\<close> written at the right end of a row of \<^verbatim>\<open>maxlen\<close> zeroes. For
  \<^verbatim>\<open>maxlen = 0\<close> the slice \<^verbatim>\<open>s[-0:]\<close> is all of \<^verbatim>\<open>s\<close>, which does not fit a row of
  no columns once it has two elements.
\<close>

definition pad_sequences :: "nat list list \<Rightarrow> nat \<Rightarrow> py_error + nat list list" where
  "pad_sequences sequences maxlen =
     (if maxlen = 0 \<and> list_ex (\<lambda>s. 2 \<le> length s) sequences then Inl ValueError
      else Inr (map (\<lambda>s. let trunc = drop (length s - maxlen) s
                          in replicate (maxlen - length trunc) 0 @ trunc) sequences))"

subsection \<open>Cell 19: one-hot labels\<close>

text \<open>
  \<^verbatim>\<open>
  labelsAsIntArray = np.asarray(labelsAsInt)
  y = to_categorical(labelsAsIntArray)
  \<close>
\<close>

text \<open>
  Modelled from the spec: "one-hot encode integer labels"; \<^verbatim>\<open>to_categorical\<close> of the
  Keras library is missing from the sources. The notebook passes no \<^verbatim>\<open>num_classes\<close>,
  so the library takes the largest label plus one (\<^verbatim>\<open>np.max(y) + 1\<close>, which raises on
  an empty array). The entries are the numbers 0 and 1.
\<close>

definition to_categorical :: "nat list \<Rightarrow> py_error + nat list list" where
  "to_categorical y =
     (if y = [] then Inl ValueError
      else let num_classes = Max (set y) + 1
           in Inr (map (\<lambda>l. map (\<lambda>j. if j = l then 1 else 0) [0 ..< num_classes]) y))"

subsection \<open>Cell 23: the train/test split\<close>

text \<open>
  \<^verbatim>\<open>
  X_train, X_test, y_train, y_test = train_test_split(X, y, test_size=0.33, random_state=42)
  \<close>
\<close>

text \<open>
  Modelled from the spec: "one randomized 67/33 train/test split with fixed seed";
  \<^verbatim>\<open>train_test_split\<close> of the scikit-learn library is missing from the sources. The
  library computes \<^verbatim>\<open>n_test = ceil(test_size * n_samples)\<close> and
  \<^verbatim>\<open>n_train = n_samples - n_test\<close>, refuses arrays of different lengths and an empty
  train set, draws \<^verbatim>\<open>rng.permutation(n_samples)\<close>, takes its first \<^verbatim>\<open>n_test\<close> entries
  as test indices and the next \<^verbatim>\<open>n_train\<close> as train indices, and returns the rows at
  those indices. The pseudo-random generator seeded with 42 is the parameter
  \<open>permutation\<close>, from the number of samples to the arrangement it draws.
  (The product \<open>0.33 * n\<close> in binary floating point rounds to the same ceiling as the
  exact fraction for every sample count a list can have.)
\<close>

definition test_size :: rat where
  "test_size = 33 / 100"

definition n_test_of :: "nat \<Rightarrow> nat" where
  "n_test_of n_samples = nat \<lceil>test_size * of_nat n_samples\<rceil>"

definition split_indices :: "(nat \<Rightarrow> nat list) \<Rightarrow> nat \<Rightarrow> nat list \<times> nat list" where
  "split_indices permutation n_samples =
     (let n_test = n_test_of n_samples;
          n_train = n_samples - n_test;
          p = permutation n_samples
      in (take n_train (drop n_test p), take n_test p))"

text \<open>
  Modelled from the spec: the row selection of the missing \<^verbatim>\<open>train_test_split\<close>:
  indexing an array with a list of row numbers; a number out of range raises.
\<close>

definition take_rows :: "'a list \<Rightarrow> nat list \<Rightarrow> py_error + 'a list" where
  "take_rows a idx =
     (if list_all (\<lambda>i. i < length a) idx then Inr (map (\<lambda>i. a ! i) idx)
      else Inl IndexError)"

definition train_test_split ::
  "(nat \<Rightarrow> nat list) \<Rightarrow> 'a list \<Rightarrow> 'b list \<Rightarrow>
     py_error + ('a list \<times> 'a list \<times> 'b list \<times> 'b list)" where
  "train_test_split permutation X y =
     (let n_samples = length X in
      if length y \<noteq> n_samples then Inl ValueError
      else if n_samples - n_test_of n_samples = 0 then Inl ValueError
      else
        (case take_rows X (fst (split_indices permutation n_samples)) of
           Inl e \<Rightarrow> Inl e
         | Inr Xtr \<Rightarrow>
        (case take_rows X (snd (split_indices permutation n_samples)) of
           Inl e \<Rightarrow> Inl e
         | Inr Xte \<Rightarrow>
        (case take_rows y (fst (split_indices permutation n_samples)) of
           Inl e \<Rightarrow> Inl e
         | Inr ytr \<Rightarrow>
        (case take_rows y (snd (split_indices permutation n_samples)) of
           Inl e \<Rightarrow> Inl e
         | Inr yte \<Rightarrow> Inr (Xtr, Xte, ytr, yte))))))"

subsection \<open>Cells 7 to 27: the prepared bundle\<close>

text \<open>
  The variables of the preparation stage as functions of the rows of the CSV file, each
  row a pair (label, text), and the dictionary \<^verbatim>\<open>trainingData\<close> that cell 27 pickles.
\<close>

definition tokenizer_of :: "(string \<times> string) list \<Rightarrow> Tokenizer" where
  "tokenizer_of rows = fit_on_texts (Tokenizer_init (Some MAX_NUM_WORDS)) (map snd rows)"

definition sequences_of :: "(string \<times> string) list \<Rightarrow> nat list list" where
  "sequences_of rows = texts_to_sequences (tokenizer_of rows) (map snd rows)"

definition X_of :: "(string \<times> string) list \<Rightarrow> py_error + nat list list" where
  "X_of rows = pad_sequences (sequences_of rows) MAX_SEQ_LENGTH"

definition y_of :: "(string \<times> string) list \<Rightarrow> py_error + nat list list" where
  "y_of rows =
     (case labelsAsInt (map fst rows) of Inl e \<Rightarrow> Inl e | Inr l \<Rightarrow> to_categorical l)"

record TrainingData =
  X_train :: "nat list list"
  X_test :: "nat list list"
  y_train :: "nat list list"
  y_test :: "nat list list"
  max_words :: nat
  max_seq_length :: nat
  label_legend :: "(string \<times> nat) list"
  label_legend_inverted :: "(string \<times> string) list"
  tokenizer :: Tokenizer

definition trainingData ::
  "(nat \<Rightarrow> nat list) \<Rightarrow> (string \<times> string) list \<Rightarrow> py_error + TrainingData" where
  "trainingData permutation rows =
     (case labelsAsInt (map fst rows) of
        Inl e \<Rightarrow> Inl e
      | Inr labelsAsIntArray \<Rightarrow>
     (case X_of rows of
        Inl e \<Rightarrow> Inl e
      | Inr X \<Rightarrow>
     (case to_categorical labelsAsIntArray of
        Inl e \<Rightarrow> Inl e
      | Inr y \<Rightarrow>
     (case train_test_split permutation X y of
        Inl e \<Rightarrow> Inl e
      | Inr (Xtr, Xte, ytr, yte) \<Rightarrow>
          Inr \<lparr>X_train = Xtr, X_test = Xte, y_train = ytr, y_test = yte,
               max_words = MAX_NUM_WORDS, max_seq_length = MAX_SEQ_LENGTH,
               label_legend = labelLegend, label_legend_inverted = labelLegendInverted,
               tokenizer = tokenizer_of rows\<rparr>))))"

section \<open>Model definition, training and export\<close>

text \<open>
  Cell 33 unpickles the bundle and reads its entries into variables; the loaded
  dictionary is the pickled one. The model of cell 35 is the list of its layers in the
  order they are added, with their arguments, and the arguments of \<^verbatim>\<open>compile\<close>;
  cell 37 trains it.
\<close>

datatype layer =
    Embedding nat nat nat
  | SpatialDropout1D rat
  | LSTM nat rat rat
  | Dense nat string

record Sequential =
  layers :: "layer list"
  loss :: "string option"
  optimizer :: "string option"
  metrics :: "string list"

definition Sequential_init :: Sequential where
  "Sequential_init = \<lparr>layers = [], loss = None, optimizer = None, metrics = []\<rparr>"

definition model_add :: "Sequential \<Rightarrow> layer \<Rightarrow> Sequential" where
  "model_add m l = m\<lparr>layers := layers m @ [l]\<rparr>"

definition model_compile :: "Sequential \<Rightarrow> string \<Rightarrow> string \<Rightarrow> string list \<Rightarrow> Sequential" where
  "model_compile m l opt ms = m\<lparr>loss := Some l, optimizer := Some opt, metrics := ms\<rparr>"

definition embedDim :: nat where
  "embedDim = 128"

definition LstmOut :: nat where
  "LstmOut = 196"

text \<open>
  \<^verbatim>\<open>X_train.shape[1]\<close>: the number of columns of the matrix. A matrix given by its
  rows has a column count only when it has a row; numpy knows the column count of a
  matrix without rows too, but the split refuses an empty train set, so no bundle holds
  such a train matrix.
\<close>

definition shape1 :: "nat list list \<Rightarrow> py_error + nat" where
  "shape1 a = (case a of [] \<Rightarrow> Inl IndexError | r # _ \<Rightarrow> Inr (length r))"

text \<open>
  \<^verbatim>\<open>
  model = Sequential()
  model.add(Embedding(maxNumWords, embedDim, input_length=X_train.shape[1]))
  model.add(SpatialDropout1D(0.4))
  model.add(LSTM(LstmOut, dropout=0.3, recurrent_dropout=0.3))
  model.add(Dense(2, activation='softmax'))
  model.compile(loss='categorical_crossentropy', optimizer='adam', metrics=['accuracy'])
  \<close>
\<close>

definition define_model :: "TrainingData \<Rightarrow> py_error + Sequential" where
  "define_model data =
     (case shape1 (X_train data) of
        Inl e \<Rightarrow> Inl e
      | Inr input_length \<Rightarrow>
          Inr (model_compile
                 (model_add
                    (model_add
                       (model_add
                          (model_add Sequential_init
                             (Embedding (max_words data) embedDim input_length))
                          (SpatialDropout1D (4 / 10)))
                       (LSTM LstmOut (3 / 10) (3 / 10)))
                    (Dense 2 ''softmax''))
                 ''categorical_crossentropy'' ''adam'' [''accuracy'']))"

text \<open>
  \<^verbatim>\<open>
  batchSize = 32
  epochs = 3
  model.fit(X_train, y_train, validation_data=(X_test, y_test),
            batch_size=batchSize, verbose=1, epochs=epochs)
  \<close>
\<close>

definition batchSize :: nat where
  "batchSize = 32"

definition epochs :: nat where
  "epochs = 3"

text \<open>
  Modelled from the spec: "3 training passes over the data in mini-batches of 32,
  validated each pass against the held-out test partition"; \<^verbatim>\<open>Model.fit\<close> of the
  Keras library is missing from the sources. One pass cuts the training samples, in
  order, into batches of \<^verbatim>\<open>batch_size\<close> samples, the last batch holding the rest, and
  is followed by an evaluation on the validation data. What is kept of a pass is the
  sizes of its batches and the data it was validated on (the weights are floating point
  numbers and are left out).
\<close>

record epoch_log =
  batch_sizes :: "nat list"
  validated_on :: "nat list list \<times> nat list list"

fun mini_batches :: "nat \<Rightarrow> nat \<Rightarrow> nat list" where
  "mini_batches b n =
     (if b = 0 \<or> n = 0 then []
      else if n \<le> b then [n]
      else b # mini_batches b (n - b))"

declare mini_batches.simps [simp del]

text \<open>The number of outputs of a model: the units of its last layer, a dense layer.\<close>

definition output_units :: "Sequential \<Rightarrow> nat option" where
  "output_units m =
     (case rev (layers m) of
        [] \<Rightarrow> None
      | l # _ \<Rightarrow> (case l of Dense u a \<Rightarrow> Some u | _ \<Rightarrow> None))"

text \<open>
  Modelled from the spec: the fitting of the missing \<^verbatim>\<open>Model.fit\<close>. The library
  raises \<^verbatim>\<open>ValueError\<close> when the inputs and the labels differ in their number of
  samples, when there is no training sample, and when a row of the label matrices does
  not have as many columns as the model has outputs (the categorical cross-entropy loss
  refuses the shapes); then no pass is completed. Otherwise it runs \<^verbatim>\<open>epochs\<close> passes.
  (\<^verbatim>\<open>verbose\<close> only chooses what is printed.)
\<close>

definition model_fit ::
  "Sequential \<Rightarrow> nat list list \<Rightarrow> nat list list \<Rightarrow> nat list list \<times> nat list list \<Rightarrow>
     nat \<Rightarrow> nat \<Rightarrow> py_error + epoch_log list" where
  "model_fit model x y validation_data batch_size n_epochs =
     (if length x \<noteq> length y \<or> x = [] then Inl ValueError
      else if length (fst validation_data) \<noteq> length (snd validation_data) then Inl ValueError
      else if \<not> list_all (\<lambda>r. Some (length r) = output_units model)
                    (y @ snd validation_data) then Inl ValueError
      else Inr (replicate n_epochs
                  \<lparr>batch_sizes = mini_batches batch_size (length x),
                   validated_on = validation_data\<rparr>))"

text \<open>Cells 35 and 37 in sequence: the model is defined and compiled, then fitted.\<close>

definition train_model :: "TrainingData \<Rightarrow> py_error + (Sequential \<times> epoch_log list)" where
  "train_model data =
     (case define_model data of
        Inl e \<Rightarrow> Inl e
      | Inr model \<Rightarrow>
          (case model_fit model (X_train data) (y_train data) (X_test data, y_test data)
                  batchSize epochs of
             Inl e \<Rightarrow> Inl e
           | Inr history \<Rightarrow> Inr (model, history)))"

text \<open>
  \<^verbatim>\<open>
  metadataForExport = {
      'label_legend_inverted': labelLegendInverted,
      'label_legend': labelLegend,
      'max_seq_length': maxSeqLength,
      'max_words': maxNumWords,
  }
  json.dump(metadataForExport, open(trainedMetadataFile, 'w'))
  \<close>
  with the four variables read from the bundle in cell 33. The JSON document is an
  object of objects, numbers and strings.
\<close>

datatype json = JInt nat | JStr string | JObj "(string \<times> json) list"

definition metadataForExport :: "TrainingData \<Rightarrow> (string \<times> json) list" where
  "metadataForExport data =
     [(''label_legend_inverted'', JObj (map (\<lambda>(k, v). (k, JStr v)) (label_legend_inverted data))),
      (''label_legend'', JObj (map (\<lambda>(k, v). (k, JInt v)) (label_legend data))),
      (''max_seq_length'', JInt (max_seq_length data)),
      (''max_words'', JInt (max_words data))]"

section \<open>The inference helper\<close>

text \<open>
  \<^verbatim>\<open>
  def predictSpamStatus(text, spamModel, pMaxSequence, pLabelLegendInverted, pTokenizer):
      sequences = pTokenizer.texts_to_sequences([text])
      xInput = pad_sequences(sequences, maxlen=pMaxSequence)
      yOutput = spamModel.predict(xInput)
      preds = yOutput[0]
      labeledPredictions = {pLabelLegendInverted[str(i)]: x for i, x in enumerate(preds)}
      return labeledPredictions
  \<close>
  The model is the function \<open>spamModel\<close> from the input matrix to the output matrix; its
  entries are of any type \<open>'p\<close>, since the helper only passes them on.
\<close>

fun labeledPredictions ::
  "(string \<times> string) list \<Rightarrow> (nat \<times> 'p) list \<Rightarrow> (string \<times> 'p) list \<Rightarrow>
     py_error + (string \<times> 'p) list" where
  "labeledPredictions pLabelLegendInverted [] d = Inr d"
| "labeledPredictions pLabelLegendInverted ((i, x) # rest) d =
     (case dict_getitem pLabelLegendInverted (str_nat i) of
        Inl e \<Rightarrow> Inl e
      | Inr k \<Rightarrow> labeledPredictions pLabelLegendInverted rest (dict_setitem k x d))"

definition xInput_of :: "string \<Rightarrow> nat \<Rightarrow> Tokenizer \<Rightarrow> py_error + nat list list" where
  "xInput_of text pMaxSequence pTokenizer =
     pad_sequences (texts_to_sequences pTokenizer [text]) pMaxSequence"

definition predictSpamStatus ::
  "string \<Rightarrow> (nat list list \<Rightarrow> 'p list list) \<Rightarrow> nat \<Rightarrow> (string \<times> string) list \<Rightarrow>
     Tokenizer \<Rightarrow> py_error + (string \<times> 'p) list" where
  "predictSpamStatus text spamModel pMaxSequence pLabelLegendInverted pTokenizer =
     (case xInput_of text pMaxSequence pTokenizer of
        Inl e \<Rightarrow> Inl e
      | Inr xInput \<Rightarrow>
          (case spamModel xInput of
             [] \<Rightarrow> Inl IndexError
           | preds # _ \<Rightarrow> labeledPredictions pLabelLegendInverted (enumerate 0 preds) []))"

section \<open>Derived notions and sample inputs\<close>

text \<open>
  A word is in the vocabulary of a tokenizer when \<^verbatim>\<open>texts_to_sequences\<close> gives it an
  index: it has an entry in the word index and that entry is below the cap.
\<close>

definition in_vocabulary :: "Tokenizer \<Rightarrow> string \<Rightarrow> bool" where
  "in_vocabulary self w =
     (case map_of (word_index self) w of
        None \<Rightarrow> False
      | Some i \<Rightarrow> \<not> beyond_cap (num_words self) i)"

text \<open>
  A toy CSV file of three rows, and an arrangement standing for the draw of the
  pseudo-random generator (the samples in reverse order).
\<close>

definition example_rows :: "(string \<times> string) list" where
  "example_rows =
     [(''ham'', ''Hi there, was it OK?''),
      (''spam'', ''WIN a FREE phone - free!''),
      (''ham'', ''ok it was free'')]"

definition example_permutation :: "nat \<Rightarrow> nat list" where
  "example_permutation n = rev [0 ..< n]"

text \<open>A model that answers every input row with the same two probabilities.\<close>

definition example_model :: "nat list list \<Rightarrow> rat list list" where
  "example_model x = map (\<lambda>r. [1 / 4, 3 / 4]) x"

text \<open>
  A file of 281 rows whose texts are 281 different words: the word of row \<open>k\<close> is
  \<open>k + 1\<close> letters a.
\<close>

definition many_words_rows :: "(string \<times> string) list" where
  "many_words_rows = map (\<lambda>k. (''ham'', replicate (Suc k) (CHR ''a''))) [0 ..< 281]"

text \<open>A file in which every row is labelled ham.\<close>

definition all_ham_rows :: "(string \<times> string) list" where
  "all_ham_rows = [(''ham'', ''hello''), (''ham'', ''see you'')]"

section \<open>Properties\<close>

subsection \<open>Auxiliary facts\<close>

lemma labelLegendInverted_eq:
  "labelLegendInverted = [(''0'', ''ham''), (''1'', ''spam'')]"
  by (simp add: labelLegendInverted_def labelLegend_def str_nat.simps)

lemma n_test_of_le: "n_test_of n \<le> n"
proof -
  have "test_size * of_nat n \<le> of_int (int n)"
    by (simp add: test_size_def mult_left_le_one_le)
  then have "\<lceil>test_size * of_nat n\<rceil> \<le> int n"
    by (simp only: ceiling_le_iff)
  then show ?thesis by (simp add: n_test_of_def)
qed

lemma n_test_of_less: "2 \<le> n \<Longrightarrow> n_test_of n < n"
proof -
  assume n: "2 \<le> n"
  then have "(2::rat) \<le> of_nat n"
    by (metis of_nat_le_iff of_nat_numeral)
  then have "(100::rat) \<le> 67 * of_nat n"
    by linarith
  then have "test_size * of_nat n \<le> of_int (int n) - 1"
    by (simp add: test_size_def)
  then have "\<lceil>test_size * of_nat n\<rceil> < int n"
    by (simp only: ceiling_less_iff)
  then show ?thesis using n by (simp add: n_test_of_def)
qed

lemma n_test_of_small: "n < 2 \<Longrightarrow> n - n_test_of n = 0"
proof -
  assume "n < 2"
  then have "n = 0 \<or> n = 1" by arith
  then show ?thesis
  proof
    assume "n = 0" then show ?thesis by simp
  next
    assume "n = 1"
    have "\<lceil>33 / 100 :: rat\<rceil> = 1" by (simp add: ceiling_eq_iff) 
    then show ?thesis using \<open>n = 1\<close> by (simp add: n_test_of_def test_size_def)
  qed
qed


lemma perm_facts:
  assumes "sort p = [0..<n]"
  shows "mset p = mset [0..<n]" and "length p = n" and "set p = {0..<n}" and "distinct p"
proof -
  show m: "mset p = mset [0..<n]" using assms by (metis mset_sort)
  show "length p = n" using m by (metis size_mset length_upt diff_zero)
  show "set p = {0..<n}" using m by (metis set_mset_mset set_upt)
  show "distinct p" using m by (metis distinct_upt mset_eq_imp_distinct_iff)
qed

lemma split_indices_append:
  assumes "sort (permutation n) = [0..<n]"
  shows "snd (split_indices permutation n) @ fst (split_indices permutation n) = permutation n"
proof -
  have len: "length (permutation n) = n" using assms by (rule perm_facts(2))
  have "take (n - n_test_of n) (drop (n_test_of n) (permutation n)) = drop (n_test_of n) (permutation n)"
    by (simp add: len)
  then show ?thesis by (simp add: split_indices_def Let_def)
qed

lemma split_indices_lengths:
  assumes "sort (permutation n) = [0..<n]"
  shows "length (snd (split_indices permutation n)) = n_test_of n"
    and "length (fst (split_indices permutation n)) = n - n_test_of n"
  using perm_facts(2) [OF assms] n_test_of_le [of n]
  by (simp_all add: split_indices_def Let_def)

lemma split_indices_sets:
  assumes "sort (permutation n) = [0..<n]"
  shows "set (fst (split_indices permutation n)) \<inter> set (snd (split_indices permutation n)) = {}"
    and "set (fst (split_indices permutation n)) \<union> set (snd (split_indices permutation n)) = {0..<n}"
    and "distinct (fst (split_indices permutation n))"
    and "distinct (snd (split_indices permutation n))"
proof -
  let ?tr = "fst (split_indices permutation n)" and ?te = "snd (split_indices permutation n)"
  have app: "?te @ ?tr = permutation n" using assms by (rule split_indices_append)
  have d: "distinct (?te @ ?tr)" unfolding app using assms by (rule perm_facts(4))
  have s: "set (?te @ ?tr) = {0..<n}" unfolding app using assms by (rule perm_facts(3))
  show "set ?tr \<inter> set ?te = {}" using d by auto
  show "set ?tr \<union> set ?te = {0..<n}" using s by auto
  show "distinct ?tr" using d by simp
  show "distinct ?te" using d by simp
qed

lemma take_rows_Inr:
  "set idx \<subseteq> {0..<length a} \<Longrightarrow> take_rows a idx = Inr (map (\<lambda>i. a ! i) idx)"
  by (auto simp: take_rows_def list_all_iff)

lemma take_rows_InrD:
  "take_rows a idx = Inr b \<Longrightarrow> b = map (\<lambda>i. a ! i) idx \<and> set idx \<subseteq> {0..<length a}"
  by (auto simp: take_rows_def list_all_iff split: if_splits)

lemma train_test_split_Inr:
  assumes p: "sort (permutation (length X)) = [0..<length X]"
    and len: "length y = length X" and n: "2 \<le> length X"
  shows "train_test_split permutation X y =
           Inr (map (\<lambda>i. X ! i) (fst (split_indices permutation (length X))),
                map (\<lambda>i. X ! i) (snd (split_indices permutation (length X))),
                map (\<lambda>i. y ! i) (fst (split_indices permutation (length X))),
                map (\<lambda>i. y ! i) (snd (split_indices permutation (length X))))"
proof -
  let ?tr = "fst (split_indices permutation (length X))"
  let ?te = "snd (split_indices permutation (length X))"
  have u: "set ?tr \<union> set ?te = {0..<length X}" using p by (rule split_indices_sets(2))
  have tr: "set ?tr \<subseteq> {0..<length X}" and te: "set ?te \<subseteq> {0..<length X}"
    using u by auto
  have pos: "length X - n_test_of (length X) \<noteq> 0" using n_test_of_less [OF n] by simp
  have a: "take_rows X ?tr = Inr (map (\<lambda>i. X ! i) ?tr)" using tr by (rule take_rows_Inr)
  have b: "take_rows X ?te = Inr (map (\<lambda>i. X ! i) ?te)" using te by (rule take_rows_Inr)
  have c: "take_rows y ?tr = Inr (map (\<lambda>i. y ! i) ?tr)"
    using tr by (simp add: take_rows_Inr len)
  have d: "take_rows y ?te = Inr (map (\<lambda>i. y ! i) ?te)"
    using te by (simp add: take_rows_Inr len)
  show ?thesis
    unfolding train_test_split_def Let_def using len pos by (simp add: a b c d)
qed

lemma train_test_split_InrD:
  assumes "train_test_split permutation X y = Inr (Xtr, Xte, ytr, yte)"
  shows "length y = length X" and "2 \<le> length X"
    and "Xtr = map (\<lambda>i. X ! i) (fst (split_indices permutation (length X)))"
    and "Xte = map (\<lambda>i. X ! i) (snd (split_indices permutation (length X)))"
    and "ytr = map (\<lambda>i. y ! i) (fst (split_indices permutation (length X)))"
    and "yte = map (\<lambda>i. y ! i) (snd (split_indices permutation (length X)))"
proof -
  show l: "length y = length X"
    using assms by (auto simp: train_test_split_def Let_def split: if_splits)
  have "length X - n_test_of (length X) \<noteq> 0"
    using assms by (auto simp: train_test_split_def Let_def split: if_splits)
  then show "2 \<le> length X" using n_test_of_small [of "length X"] by (cases "length X < 2") auto
  show "Xtr = map (\<lambda>i. X ! i) (fst (split_indices permutation (length X)))"
    using assms by (auto simp: train_test_split_def Let_def split: if_splits sum.splits dest: take_rows_InrD)
  show "Xte = map (\<lambda>i. X ! i) (snd (split_indices permutation (length X)))"
    using assms by (auto simp: train_test_split_def Let_def split: if_splits sum.splits dest: take_rows_InrD)
  show "ytr = map (\<lambda>i. y ! i) (fst (split_indices permutation (length X)))"
    using assms by (auto simp: train_test_split_def Let_def split: if_splits sum.splits dest: take_rows_InrD)
  show "yte = map (\<lambda>i. y ! i) (snd (split_indices permutation (length X)))"
    using assms by (auto simp: train_test_split_def Let_def split: if_splits sum.splits dest: take_rows_InrD)
qed


lemma dict_getitem_labelLegend:
  "dict_getitem labelLegend l = Inr i \<longleftrightarrow> (l = ''ham'' \<and> i = 0) \<or> (l = ''spam'' \<and> i = 1)"
  by (auto simp: dict_getitem_def labelLegend_def)

lemma labelsAsInt_InrD:
  "labelsAsInt labels = Inr vs \<Longrightarrow>
     length vs = length labels \<and>
     (\<forall>k<length labels. dict_getitem labelLegend (labels ! k) = Inr (vs ! k))"
proof (induction labels arbitrary: vs)
  case Nil
  then show ?case by simp
next
  case (Cons x labels)
  then obtain v vs' where v: "dict_getitem labelLegend x = Inr v"
    and r: "labelsAsInt labels = Inr vs'" and vs: "vs = v # vs'"
    by (auto split: sum.splits)
  from Cons.IH [OF r] show ?case using v vs by (auto simp: nth_Cons split: nat.splits)
qed

lemma labelsAsInt_Inr:
  "set labels \<subseteq> {''ham'', ''spam''} \<Longrightarrow> \<exists>vs. labelsAsInt labels = Inr vs"
proof (induction labels)
  case Nil
  then show ?case by simp
next
  case (Cons x labels)
  then obtain vs where "labelsAsInt labels = Inr vs" by auto
  moreover have "x = ''ham'' \<or> x = ''spam''" using Cons.prems by auto
  then have "\<exists>v. dict_getitem labelLegend x = Inr v"
    by (auto simp: dict_getitem_labelLegend)
  ultimately show ?case by auto
qed

lemma pad_sequences_Inr:
  "0 < maxlen \<Longrightarrow>
   pad_sequences sequences maxlen =
     Inr (map (\<lambda>s. replicate (maxlen - length s) 0 @ drop (length s - maxlen) s) sequences)"
  by (auto simp: pad_sequences_def Let_def)

lemma X_of_Inr:
  "X_of rows =
     Inr (map (\<lambda>s. replicate (MAX_SEQ_LENGTH - length s) 0 @ drop (length s - MAX_SEQ_LENGTH) s)
            (sequences_of rows))"
  by (simp add: X_of_def pad_sequences_Inr MAX_SEQ_LENGTH_def)

lemma length_sequences_of: "length (sequences_of rows) = length rows"
  by (simp add: sequences_of_def texts_to_sequences_def)

lemma X_of_InrD:
  assumes "X_of rows = Inr X"
  shows "length X = length rows" and "\<forall>r\<in>set X. length r = MAX_SEQ_LENGTH"
  using assms unfolding X_of_Inr by (auto simp: length_sequences_of)

lemma to_categorical_InrD:
  "to_categorical l = Inr y \<Longrightarrow> length y = length l"
  by (auto simp: to_categorical_def Let_def split: if_splits)

lemma trainingData_InrD:
  assumes "trainingData permutation rows = Inr data"
  shows "max_words data = MAX_NUM_WORDS" and "max_seq_length data = MAX_SEQ_LENGTH"
    and "label_legend data = labelLegend" and "label_legend_inverted data = labelLegendInverted"
    and "tokenizer data = tokenizer_of rows"
    and "\<exists>X y. X_of rows = Inr X \<and> y_of rows = Inr y \<and>
           train_test_split permutation X y = Inr (X_train data, X_test data, y_train data, y_test data)"
  using assms
  by (auto simp: trainingData_def y_of_def split: sum.splits prod.splits)

lemma trainingData_Inr:
  assumes labels: "set (map fst rows) \<subseteq> {''ham'', ''spam''}" and n: "2 \<le> length rows"
    and p: "sort (permutation (length rows)) = [0..<length rows]"
  shows "\<exists>data. trainingData permutation rows = Inr data"
proof -
  obtain l where l: "labelsAsInt (map fst rows) = Inr l"
    using labelsAsInt_Inr [OF labels] by blast
  have ll: "length l = length rows" using labelsAsInt_InrD [OF l] by simp
  obtain X where X: "X_of rows = Inr X" using X_of_Inr by blast
  have lX: "length X = length rows" using X by (rule X_of_InrD)
  have "l \<noteq> []" using ll n by auto
  then obtain y where y: "to_categorical l = Inr y" by (auto simp: to_categorical_def Let_def)
  have ly: "length y = length X" using to_categorical_InrD [OF y] ll lX by simp
  have "\<exists>r. train_test_split permutation X y = Inr r"
    using train_test_split_Inr [of permutation X y] p n ly lX by simp
  then show ?thesis
    using l X y by (auto simp: trainingData_def split: prod.splits)
qed

lemma example_permutation_sort: "sort (example_permutation n) = [0..<n]"
  unfolding example_permutation_def by (rule properties_for_sort) simp_all

lemma example_rows_ok:
  "set (map fst example_rows) \<subseteq> {''ham'', ''spam''}" "2 \<le> length example_rows" "length example_rows = 3"
  by (simp_all add: example_rows_def)

lemma example_trainingData:
  "\<exists>data. trainingData example_permutation example_rows = Inr data"
proof (rule trainingData_Inr)
  show "set (map fst example_rows) \<subseteq> {''ham'', ''spam''}" by (rule example_rows_ok(1))
  show "2 \<le> length example_rows" by (rule example_rows_ok(2))
  show "sort (example_permutation (length example_rows)) = [0..<length example_rows]"
    by (rule example_permutation_sort)
qed

lemma str_nat_small: "n < 10 \<Longrightarrow> str_nat n = [''0123456789'' ! n]"
  by (simp add: str_nat.simps)

lemma length_str_nat_big: "10 \<le> n \<Longrightarrow> 2 \<le> length (str_nat n)"
  by (subst str_nat.simps) (simp add: Suc_le_eq str_nat.simps [of "n div 10"])

lemma str_nat_eq_0: "str_nat i = ''0'' \<longleftrightarrow> i = 0"
proof
  assume a: "str_nat i = ''0''"
  show "i = 0"
  proof (cases "i < 10")
    case True
    then have "i \<in> {0,1,2,3,4,5,6,7,8,9}" by auto
    then show ?thesis using a by (auto simp: str_nat_small)
  next
    case False
    then have "2 \<le> length (str_nat i)" by (simp add: length_str_nat_big)
    then show ?thesis using a by simp
  qed
next
  assume "i = 0" then show "str_nat i = ''0''" by (simp add: str_nat_small)
qed

lemma str_nat_eq_1: "str_nat i = ''1'' \<longleftrightarrow> i = 1"
proof
  assume a: "str_nat i = ''1''"
  show "i = 1"
  proof (cases "i < 10")
    case True
    then have "i \<in> {0,1,2,3,4,5,6,7,8,9}" by auto
    then show ?thesis using a by (auto simp: str_nat_small)
  next
    case False
    then have "2 \<le> length (str_nat i)" by (simp add: length_str_nat_big)
    then show ?thesis using a by simp
  qed
next
  assume "i = 1" then show "str_nat i = ''1''" by (simp add: str_nat_small)
qed

lemma dict_getitem_labelLegendInverted:
  "dict_getitem labelLegendInverted (str_nat i) = Inr l \<longleftrightarrow>
     (l = ''ham'' \<and> i = 0) \<or> (l = ''spam'' \<and> i = 1)"
  by (auto simp: dict_getitem_def labelLegendInverted_eq str_nat_eq_0 str_nat_eq_1)


lemma labeledPredictions_single:
  "(labeledPredictions legend [(i, x)] [] = Inr [(l, x)]) = (dict_getitem legend (str_nat i) = Inr l)"
  by (auto split: sum.splits)

lemma labelsAsInt_single:
  "(labelsAsInt [l] = Inr [i]) = (dict_getitem labelLegend l = Inr i)"
  by (auto split: sum.splits)


subsection \<open>The label legend\<close>

text \<open>
  Claim C9. The label legend is the fixed two-way mapping between the class names
  \<open>ham\<close>, \<open>spam\<close> and the class indices 0, 1. The legend has exactly the two entries
  \<open>ham \<mapsto> 0\<close> and \<open>spam \<mapsto> 1\<close>; the inverted legend, which the notebook keys by the
  decimal string of the index (\<^verbatim>\<open>'%i' % v\<close>) and reads with \<^verbatim>\<open>str(i)\<close>, sends
  the index \<open>i\<close> to the name \<open>l\<close> exactly when the legend sends \<open>l\<close> to \<open>i\<close>, so
  each is the inverse of the other in both directions. The encoding of a label at
  training (\<open>labelsAsInt\<close>) and the naming of a prediction at inference
  (\<open>labeledPredictions\<close> with the inverted legend) are the same mapping.
\<close>

theorem label_legend_bidirectional:
  "(dict_getitem labelLegend l = Inr i) = (l = ''ham'' \<and> i = 0 \<or> l = ''spam'' \<and> i = 1) \<and>
   (dict_getitem labelLegendInverted (str_nat i) = Inr l) = (dict_getitem labelLegend l = Inr i) \<and>
   map fst labelLegend = [''ham'', ''spam''] \<and> map snd labelLegend = [0, 1] \<and>
   labelLegendInverted = [(str_nat 0, ''ham''), (str_nat 1, ''spam'')] \<and>
   dict_getitem labelLegend ''ham'' = Inr 0 \<and>
   dict_getitem labelLegendInverted (str_nat 0) = Inr ''ham'' \<and>
   dict_getitem labelLegend ''spam'' = Inr 1 \<and>
   dict_getitem labelLegendInverted (str_nat 1) = Inr ''spam'' \<and>
   (labelsAsInt [l] = Inr [i]) =
     (labeledPredictions labelLegendInverted [(i, x)] [] = Inr [(l, x)])"
proof -
  have a: "(dict_getitem labelLegend l = Inr i) = (l = ''ham'' \<and> i = 0 \<or> l = ''spam'' \<and> i = 1)"
    by (rule dict_getitem_labelLegend)
  have b: "(dict_getitem labelLegendInverted (str_nat i) = Inr l) = (dict_getitem labelLegend l = Inr i)"
    unfolding a by (rule dict_getitem_labelLegendInverted)
  have c: "map fst labelLegend = [''ham'', ''spam''] \<and> map snd labelLegend = [0, 1]"
    by (simp add: labelLegend_def)
  have d: "labelLegendInverted = [(str_nat 0, ''ham''), (str_nat 1, ''spam'')]"
    by (simp add: labelLegendInverted_eq str_nat_small)
  have e: "(labelsAsInt [l] = Inr [i]) =
     (labeledPredictions labelLegendInverted [(i, x)] [] = Inr [(l, x)])"
    unfolding labeledPredictions_single labelsAsInt_single b ..
  have f: "dict_getitem labelLegend ''ham'' = Inr 0 \<and>
           dict_getitem labelLegendInverted (str_nat 0) = Inr ''ham'' \<and>
           dict_getitem labelLegend ''spam'' = Inr 1 \<and>
           dict_getitem labelLegendInverted (str_nat 1) = Inr ''spam''"
    by (simp add: dict_getitem_labelLegend dict_getitem_labelLegendInverted)
  show ?thesis using a b c d e f by (intro conjI) simp_all
qed

subsection \<open>The exported metadata\<close>

text \<open>
  Claim C7. Whenever the preparation stage produces its bundle, the metadata written in
  the export stage has exactly the four keys \<open>label_legend\<close>, \<open>label_legend_inverted\<close>,
  \<open>max_seq_length\<close> and \<open>max_words\<close>; their values are the legend \<open>{ham: 0, spam: 1}\<close>,
  its inverted form, 300 and 280, which are the constants of the preparation stage
  carried through the bundle unchanged.
\<close>

theorem metadata_export:
  assumes "trainingData permutation rows = Inr data"
  shows "metadataForExport data =
           [(''label_legend_inverted'', JObj [(''0'', JStr ''ham''), (''1'', JStr ''spam'')]),
            (''label_legend'', JObj [(''ham'', JInt 0), (''spam'', JInt 1)]),
            (''max_seq_length'', JInt 300),
            (''max_words'', JInt 280)] \<and>
         set (map fst (metadataForExport data)) =
           {''label_legend'', ''label_legend_inverted'', ''max_seq_length'', ''max_words''} \<and>
         distinct (map fst (metadataForExport data)) \<and>
         label_legend data = labelLegend \<and>
         label_legend_inverted data = labelLegendInverted \<and>
         max_seq_length data = MAX_SEQ_LENGTH \<and>
         max_words data = MAX_NUM_WORDS"
proof -
  note f = trainingData_InrD(1-4) [OF assms]
  have m: "metadataForExport data =
           [(''label_legend_inverted'', JObj [(''0'', JStr ''ham''), (''1'', JStr ''spam'')]),
            (''label_legend'', JObj [(''ham'', JInt 0), (''spam'', JInt 1)]),
            (''max_seq_length'', JInt 300),
            (''max_words'', JInt 280)]"
    by (simp add: metadataForExport_def f labelLegendInverted_eq labelLegend_def
        MAX_SEQ_LENGTH_def MAX_NUM_WORDS_def)
  have k: "set (map fst (metadataForExport data)) =
           {''label_legend'', ''label_legend_inverted'', ''max_seq_length'', ''max_words''}"
    unfolding m by auto
  have d: "distinct (map fst (metadataForExport data))"
    unfolding m by simp
  show ?thesis using m k d f by blast
qed

theorem metadata_export_witness:
  "\<exists>data. trainingData example_permutation example_rows = Inr data \<and>
     dict_getitem (metadataForExport data) ''max_seq_length'' = Inr (JInt 300) \<and>
     dict_getitem (metadataForExport data) ''max_words'' = Inr (JInt 280)"
proof -
  obtain data where d: "trainingData example_permutation example_rows = Inr data"
    using example_trainingData by blast
  have "dict_getitem (metadataForExport data) ''max_seq_length'' = Inr (JInt 300) \<and>
     dict_getitem (metadataForExport data) ''max_words'' = Inr (JInt 280)"
    using metadata_export [OF d] by (simp add: dict_getitem_def)
  then show ?thesis using d by blast
qed

subsection \<open>The inference helper\<close>

lemma xInput_of_Inr:
  "0 < n \<Longrightarrow>
   xInput_of text n tk =
     Inr [replicate (n - length (text_to_sequence tk text)) 0 @
          drop (length (text_to_sequence tk text) - n) (text_to_sequence tk text)]"
  by (simp add: xInput_of_def texts_to_sequences_def pad_sequences_Inr)

lemma text_to_sequence_no_vocabulary:
  "\<forall>w\<in>set (text_to_word_sequence text). \<not> in_vocabulary tk w \<Longrightarrow>
   text_to_sequence tk text = []"
  by (auto simp: text_to_sequence_def in_vocabulary_def split: option.splits)

lemma labeledPredictions_two:
  "labeledPredictions labelLegendInverted (enumerate 0 [p0, p1]) [] =
     Inr [(''ham'', p0), (''spam'', p1)]"
  by (simp add: dict_getitem_def labelLegendInverted_eq str_nat_small)

lemma example_model_shape: "map length (example_model x) = replicate (length x) 2"
  by (simp add: example_model_def map_replicate_const)

text \<open>
  Claim C10. For every input text, the inference helper \<open>predictSpamStatus\<close>, called
  with a model that answers each input row with two numbers, a positive sequence length
  and the inverted legend, returns a dictionary with exactly the two keys \<open>ham\<close> and
  \<open>spam\<close>: \<open>ham\<close> is given the first output of the model and \<open>spam\<close> the second. This
  includes a text none of whose words is in the vocabulary: its sequence is empty, the
  row given to the model is all zeroes, and the result has the same two keys.
\<close>

theorem predictSpamStatus_labels:
  assumes shape: "\<And>x. map length (spamModel x) = replicate (length x) 2"
    and n: "0 < pMaxSequence"
  shows "\<exists>xInput p0 p1.
           xInput_of text pMaxSequence pTokenizer = Inr [xInput] \<and>
           length xInput = pMaxSequence \<and>
           ((\<forall>w\<in>set (text_to_word_sequence text). \<not> in_vocabulary pTokenizer w) \<longrightarrow>
              text_to_sequence pTokenizer text = [] \<and> xInput = replicate pMaxSequence 0) \<and>
           spamModel [xInput] = [[p0, p1]] \<and>
           predictSpamStatus text spamModel pMaxSequence labelLegendInverted pTokenizer =
             Inr [(''ham'', p0), (''spam'', p1)]"
proof -
  define s where "s = text_to_sequence pTokenizer text"
  define xInput where "xInput = replicate (pMaxSequence - length s) 0 @ drop (length s - pMaxSequence) s"
  have x: "xInput_of text pMaxSequence pTokenizer = Inr [xInput]"
    unfolding xInput_def s_def using n by (rule xInput_of_Inr)
  have l: "length xInput = pMaxSequence" by (simp add: xInput_def)
  have z: "(\<forall>w\<in>set (text_to_word_sequence text). \<not> in_vocabulary pTokenizer w) \<longrightarrow>
              text_to_sequence pTokenizer text = [] \<and> xInput = replicate pMaxSequence 0"
    using text_to_sequence_no_vocabulary [of "text" pTokenizer] by (auto simp: xInput_def s_def)
  have "map length (spamModel [xInput]) = [2]" using shape [of "[xInput]"] by simp
  then obtain r where r: "spamModel [xInput] = [r]" and lr: "length r = 2"
    by (cases "spamModel [xInput]") auto
  then obtain p0 p1 where p: "r = [p0, p1]"
    by (cases r; cases "tl r") auto
  have y: "spamModel [xInput] = [[p0, p1]]" using r p by simp
  have "predictSpamStatus text spamModel pMaxSequence labelLegendInverted pTokenizer =
             Inr [(''ham'', p0), (''spam'', p1)]"
    by (simp only: predictSpamStatus_def x y sum.case list.case labeledPredictions_two)
  then show ?thesis using x l z y by blast
qed

theorem predictSpamStatus_labels_witness:
  "map length (example_model [[0, 1]]) = replicate (length [[0, 1 :: nat]]) 2 \<and>
   predictSpamStatus ''zzz'' example_model 300 labelLegendInverted (tokenizer_of example_rows) =
     Inr [(''ham'', 1 / 4), (''spam'', 3 / 4)]"
  using predictSpamStatus_labels [of example_model 300 "''zzz''" "tokenizer_of example_rows",
      OF example_model_shape]
  by (auto simp: example_model_def)

subsection \<open>The sequence matrix\<close>

lemma sequences_of_example:
  "sequences_of example_rows = [[5, 6, 2, 3, 4], [7, 8, 1, 9, 1], [4, 3, 2, 1]]"
  by code_simp

lemma take_rows_set: "take_rows a idx = Inr b \<Longrightarrow> set b \<subseteq> set a"
  by (auto simp: take_rows_def list_all_iff split: if_splits)

lemma train_test_split_rows:
  assumes "train_test_split permutation X y = Inr (Xtr, Xte, ytr, yte)"
  shows "set Xtr \<subseteq> set X" and "set Xte \<subseteq> set X" and "set ytr \<subseteq> set y" and "set yte \<subseteq> set y"
proof -
  have "take_rows X (fst (split_indices permutation (length X))) = Inr Xtr"
    and "take_rows X (snd (split_indices permutation (length X))) = Inr Xte"
    and "take_rows y (fst (split_indices permutation (length X))) = Inr ytr"
    and "take_rows y (snd (split_indices permutation (length X))) = Inr yte"
    using assms by (auto simp: train_test_split_def Let_def split: if_splits sum.splits)
  then show "set Xtr \<subseteq> set X" and "set Xte \<subseteq> set X" and "set ytr \<subseteq> set y" and "set yte \<subseteq> set y"
    by (auto dest!: take_rows_set)
qed

text \<open>
  Claim C1. For every file of rows, the preparer produces a sequence matrix \<open>X\<close> with
  one row per input row, and every row of \<open>X\<close> has exactly 300 entries, the configured
  maximum sequence length: a tokenized sequence of at most 300 indices is padded on the
  left with zeroes, a longer one is truncated (to its last 300 indices). The rows of the
  train and test matrices of the bundle are rows of \<open>X\<close>, so they have 300 entries too.
\<close>

theorem sequence_matrix_rows:
  "\<exists>X. X_of rows = Inr X \<and> length X = length rows \<and>
     (\<forall>k<length rows.
        length (X ! k) = 300 \<and>
        (length (sequences_of rows ! k) \<le> 300 \<longrightarrow>
           X ! k = replicate (300 - length (sequences_of rows ! k)) 0 @ sequences_of rows ! k) \<and>
        (300 < length (sequences_of rows ! k) \<longrightarrow>
           X ! k = drop (length (sequences_of rows ! k) - 300) (sequences_of rows ! k))) \<and>
     (\<forall>permutation data. trainingData permutation rows = Inr data \<longrightarrow>
        (\<forall>r\<in>set (X_train data) \<union> set (X_test data). length r = 300))"
proof -
  define X where "X = map (\<lambda>s. replicate (300 - length s) 0 @ drop (length s - 300) s) (sequences_of rows)"
  have X: "X_of rows = Inr X" by (simp add: X_of_Inr X_def MAX_SEQ_LENGTH_def)
  have l: "length X = length rows" by (simp add: X_def length_sequences_of)
  have r: "\<forall>k<length rows.
        length (X ! k) = 300 \<and>
        (length (sequences_of rows ! k) \<le> 300 \<longrightarrow>
           X ! k = replicate (300 - length (sequences_of rows ! k)) 0 @ sequences_of rows ! k) \<and>
        (300 < length (sequences_of rows ! k) \<longrightarrow>
           X ! k = drop (length (sequences_of rows ! k) - 300) (sequences_of rows ! k))"
    by (auto simp: X_def length_sequences_of)
  have b: "\<forall>permutation data. trainingData permutation rows = Inr data \<longrightarrow>
        (\<forall>r\<in>set (X_train data) \<union> set (X_test data). length r = 300)"
  proof (intro allI impI)
    fix permutation data
    assume d: "trainingData permutation rows = Inr data"
    obtain X' y where X': "X_of rows = Inr X'"
      and s: "train_test_split permutation X' y = Inr (X_train data, X_test data, y_train data, y_test data)"
      using trainingData_InrD(6) [OF d] by blast
    have "\<forall>r\<in>set X'. length r = 300" using X_of_InrD(2) [OF X'] by (simp add: MAX_SEQ_LENGTH_def)
    then show "\<forall>r\<in>set (X_train data) \<union> set (X_test data). length r = 300"
      using train_test_split_rows(1,2) [OF s] by auto
  qed
  show ?thesis using X l r b by blast
qed

theorem sequence_matrix_rows_witness:
  "\<exists>X. X_of example_rows = Inr X \<and> length X = 3 \<and> map length X = [300, 300, 300] \<and>
       X ! 1 = replicate 295 0 @ [7, 8, 1, 9, 1]"
proof -
  obtain X where X: "X_of example_rows = Inr X" and l: "length X = length example_rows"
    and r: "\<forall>k<length example_rows.
        length (X ! k) = 300 \<and>
        (length (sequences_of example_rows ! k) \<le> 300 \<longrightarrow>
           X ! k = replicate (300 - length (sequences_of example_rows ! k)) 0 @ sequences_of example_rows ! k) \<and>
        (300 < length (sequences_of example_rows ! k) \<longrightarrow>
           X ! k = drop (length (sequences_of example_rows ! k) - 300) (sequences_of example_rows ! k))"
    using sequence_matrix_rows [of example_rows] by blast
  have l3: "length X = 3" using l by (simp add: example_rows_ok(3))
  have "length (X ! 0) = 300" and "length (X ! 1) = 300" and "length (X ! 2) = 300"
    using r by (simp_all add: example_rows_ok(3))
  then have m: "map length X = [300, 300, 300]"
    using l3 by (intro nth_equalityI) (auto simp: nth_Cons less_Suc_eq numeral_3_eq_3 numeral_2_eq_2 split: nat.splits)
  have "X ! 1 = replicate 295 0 @ [7, 8, 1, 9, 1]"
    using r by (simp add: example_rows_ok(3) sequences_of_example)
  then show ?thesis using X l3 m by (intro exI [of _ X] conjI)
qed

subsection \<open>The train/test split\<close>

lemma zip_as_map:
  "length ys = length xs \<Longrightarrow> zip xs ys = map (\<lambda>i. (xs ! i, ys ! i)) [0..<length xs]"
  by (rule nth_equalityI) simp_all

lemma zip_map_nth:
  "zip (map (\<lambda>i. xs ! i) idx) (map (\<lambda>i. ys ! i) idx) = map (\<lambda>i. (xs ! i, ys ! i)) idx"
  by (induction idx) simp_all

lemma split_partition_mset:
  assumes p: "sort (permutation (length X)) = [0..<length X]" and len: "length y = length X"
  shows "mset (zip (map (\<lambda>i. X ! i) (fst (split_indices permutation (length X))))
                   (map (\<lambda>i. y ! i) (fst (split_indices permutation (length X))))) +
         mset (zip (map (\<lambda>i. X ! i) (snd (split_indices permutation (length X))))
                   (map (\<lambda>i. y ! i) (snd (split_indices permutation (length X))))) =
         mset (zip X y)"
proof -
  let ?tr = "fst (split_indices permutation (length X))"
  let ?te = "snd (split_indices permutation (length X))"
  let ?h = "\<lambda>i. (X ! i, y ! i)"
  have "mset (map ?h ?tr) + mset (map ?h ?te) = mset (map ?h (?te @ ?tr))"
    by simp
  also have "\<dots> = mset (map ?h (permutation (length X)))"
    using split_indices_append [of permutation "length X"] p by simp
  also have "\<dots> = image_mset ?h (mset (permutation (length X)))"
    by simp
  also have "\<dots> = image_mset ?h (mset [0..<length X])"
    by (simp only: perm_facts(1) [OF p])
  also have "\<dots> = mset (map ?h [0..<length X])"
    by simp
  also have "\<dots> = mset (zip X y)"
    by (simp only: zip_as_map [OF len])
  finally show ?thesis by (simp only: zip_map_nth)
qed

text \<open>
  Claim C2. For a file of at least two rows with labels from the legend, and a generator
  that draws an arrangement of the row numbers, the preparer produces
  \<open>(X_train, y_train)\<close> and \<open>(X_test, y_test)\<close> from two lists of row numbers, \<open>train\<close> and
  \<open>test\<close>, that have no row number in common and together hold every row number of
  the input once; the test list has \<open>ceil(0.33 * n)\<close> of the \<open>n\<close> rows. The rows of \<open>X\<close> and
  of \<open>y\<close> are taken at the same row numbers, so each sequence stays with its label: the
  pairs (sequence, label) of the two partitions together are exactly the pairs of the
  input, each as often as it occurs there.
\<close>

theorem train_test_partition:
  assumes labels: "set (map fst rows) \<subseteq> {''ham'', ''spam''}" and n: "2 \<le> length rows"
    and p: "sort (permutation (length rows)) = [0..<length rows]"
  shows "\<exists>data X y train test.
           trainingData permutation rows = Inr data \<and>
           X_of rows = Inr X \<and> y_of rows = Inr y \<and>
           length X = length rows \<and> length y = length rows \<and>
           split_indices permutation (length rows) = (train, test) \<and>
           set train \<inter> set test = {} \<and>
           set train \<union> set test = {0..<length rows} \<and>
           distinct train \<and> distinct test \<and>
           length test = n_test_of (length rows) \<and>
           X_train data = map (\<lambda>i. X ! i) train \<and> y_train data = map (\<lambda>i. y ! i) train \<and>
           X_test data = map (\<lambda>i. X ! i) test \<and> y_test data = map (\<lambda>i. y ! i) test \<and>
           mset (zip (X_train data) (y_train data)) + mset (zip (X_test data) (y_test data)) =
             mset (zip X y)"
proof -
  obtain data where d: "trainingData permutation rows = Inr data"
    using trainingData_Inr [of rows permutation] labels n p by blast
  obtain X y where X: "X_of rows = Inr X" and y: "y_of rows = Inr y"
    and s: "train_test_split permutation X y = Inr (X_train data, X_test data, y_train data, y_test data)"
    using trainingData_InrD(6) [OF d] by blast
  have lX: "length X = length rows" using X by (rule X_of_InrD(1))
  have ly: "length y = length X" using s by (rule train_test_split_InrD(1))
  have p': "sort (permutation (length X)) = [0..<length X]" using p lX by simp
  define train where "train = fst (split_indices permutation (length X))"
  define test where "test = snd (split_indices permutation (length X))"
  have si: "split_indices permutation (length rows) = (train, test)"
    by (simp add: train_def test_def lX)
  note parts = train_test_split_InrD(3-6) [OF s, folded train_def test_def]
  note sets = split_indices_sets [of permutation "length X", OF p', folded train_def test_def]
  have lt: "length test = n_test_of (length rows)"
    using split_indices_lengths(1) [of permutation "length X", OF p'] by (simp add: test_def lX)
  have m: "mset (zip (X_train data) (y_train data)) + mset (zip (X_test data) (y_test data)) =
             mset (zip X y)"
    unfolding parts train_def test_def using p' ly by (rule split_partition_mset)
  show ?thesis
    using d X y lX ly si sets lt parts m by (simp add: lX)
qed

theorem train_test_partition_witness:
  "\<exists>data. trainingData example_permutation example_rows = Inr data \<and>
     split_indices example_permutation (length example_rows) = ([1, 0], [2]) \<and>
     length (X_train data) = 2 \<and> length (X_test data) = 1 \<and>
     y_train data = [[0, 1], [1, 0]] \<and> y_test data = [[1, 0]]"
proof -
  have si: "split_indices example_permutation (length example_rows) = ([1, 0], [2])"
    by code_simp
  have y: "y_of example_rows = Inr [[1, 0], [0, 1], [1, 0]]"
    by code_simp
  obtain data and X :: "nat list list" where d: "trainingData example_permutation example_rows = Inr data"
    and tr: "X_train data = map (\<lambda>i. X ! i) [1, 0]" "y_train data = map (\<lambda>i. [[1, 0], [0, 1], [1, 0]] ! i) [1, 0]"
    and te: "X_test data = map (\<lambda>i. X ! i) [2]" "y_test data = map (\<lambda>i. [[1, 0], [0, 1], [1, 0]] ! i) [2]"
    using train_test_partition [of example_rows example_permutation, OF example_rows_ok(1) example_rows_ok(2) example_permutation_sort]
    by (auto simp: si y)
  show ?thesis using d si tr te by (intro exI [of _ data]) simp
qed

subsection \<open>The one-hot label matrix\<close>





lemma y_of_all_ham: "y_of all_ham_rows = Inr [[1], [1]]"
  by (simp add: y_of_def all_ham_rows_def to_categorical_def dict_getitem_def labelLegend_def)


subsection \<open>The tokenizer\<close>

lemma foldl_texts_concat:
  "foldl (\<lambda>d t. foldl f d (g t)) d ts = foldl f d (concat (map g ts))"
  by (induction ts arbitrary: d) simp_all

lemma map_fst_count_word:
  "map fst (count_word d w) = (if w \<in> set (map fst d) then map fst d else map fst d @ [w])"
  by (induction d w rule: count_word.induct) auto

lemma keys_count_word: "fst ` set (count_word d w) = insert w (fst ` set d)"
  by (induction d w rule: count_word.induct) auto

lemma keys_foldl_count_word:
  "fst ` set (foldl count_word d ws) = fst ` set d \<union> set ws"
  by (induction ws arbitrary: d) (simp_all add: keys_count_word)

lemma distinct_foldl_count_word:
  "distinct (map fst d) \<Longrightarrow> distinct (map fst (foldl count_word d ws))"
  by (induction ws arbitrary: d) (auto simp: map_fst_count_word)

lemma word_index_fit:
  "\<exists>voc. word_index (fit_on_texts (Tokenizer_init n) texts) = zip voc [1 ..< Suc (length voc)] \<and>
         distinct voc \<and> set voc = set (concat (map text_to_word_sequence texts))"
proof -
  define wc where "wc = foldl count_word [] (concat (map text_to_word_sequence texts))"
  define voc where "voc = map fst (sort_key (\<lambda>(w, c). - int c) wc)"
  have wi: "word_index (fit_on_texts (Tokenizer_init n) texts) = zip voc [1 ..< Suc (length voc)]"
    by (simp add: fit_on_texts_def Tokenizer_init_def Let_def foldl_texts_concat voc_def wc_def)
  have m: "mset voc = mset (map fst wc)" by (simp add: voc_def)
  have "distinct (map fst wc)" unfolding wc_def by (rule distinct_foldl_count_word) simp
  then have d: "distinct voc" using m by (metis mset_eq_imp_distinct_iff)
  have "set voc = set (map fst wc)" using m by (metis set_mset_mset)
  then have s: "set voc = set (concat (map text_to_word_sequence texts))"
    by (simp add: wc_def keys_foldl_count_word)
  show ?thesis using wi d s by blast
qed

lemma text_to_sequence_map_filter:
  "text_to_sequence tk text =
     List.map_filter (\<lambda>w. if in_vocabulary tk w then map_of (word_index tk) w else None)
       (text_to_word_sequence text)"
proof -
  have "concat (map (\<lambda>w. case map_of (word_index tk) w of
                         None \<Rightarrow> []
                       | Some i \<Rightarrow> if beyond_cap (num_words tk) i then [] else [i]) ws) =
        List.map_filter (\<lambda>w. if in_vocabulary tk w then map_of (word_index tk) w else None) ws"
    for ws
    by (induction ws) (auto simp: List.map_filter_simps in_vocabulary_def split: option.splits)
  then show ?thesis by (simp add: text_to_sequence_def)
qed

lemma text_to_sequence_member:
  "i \<in> set (text_to_sequence tk text) \<Longrightarrow>
     \<exists>w\<in>set (text_to_word_sequence text).
        map_of (word_index tk) w = Some i \<and> \<not> beyond_cap (num_words tk) i"
  by (auto simp: text_to_sequence_def split: option.splits if_splits)

lemma num_words_tokenizer_of: "num_words (tokenizer_of rows) = Some MAX_NUM_WORDS"
  by (simp add: tokenizer_of_def fit_on_texts_def Tokenizer_init_def Let_def)

lemma word_index_positive:
  assumes "map_of (word_index (tokenizer_of rows)) w = Some i"
  shows "0 < i"
proof -
  obtain voc where wi: "word_index (tokenizer_of rows) = zip voc [1 ..< Suc (length voc)]"
    using word_index_fit [of "Some MAX_NUM_WORDS" "map snd rows"] by (auto simp: tokenizer_of_def)
  have "(w, i) \<in> set (word_index (tokenizer_of rows))"
    using assms by (rule map_of_SomeD)
  then have "(w, i) \<in> set (zip voc [1 ..< Suc (length voc)])"
    by (simp only: wi)
  then have "i \<in> set [1 ..< Suc (length voc)]" by (rule set_zip_rightD)
  then show ?thesis by auto
qed


lemma word_index_injective:
  assumes a: "map_of (word_index (tokenizer_of rows)) w = Some i"
    and b: "map_of (word_index (tokenizer_of rows)) w' = Some i"
  shows "w = w'"
proof -
  obtain voc where wi: "word_index (tokenizer_of rows) = zip voc [1 ..< Suc (length voc)]"
    using word_index_fit [of "Some MAX_NUM_WORDS" "map snd rows"] by (auto simp: tokenizer_of_def)
  have "map snd (zip voc [1 ..< Suc (length voc)]) = [1 ..< Suc (length voc)]"
    by (rule map_snd_zip) (simp del: upt_Suc)
  then have "distinct (map snd (word_index (tokenizer_of rows)))"
    by (simp only: wi distinct_upt)
  then have inj: "inj_on snd (set (word_index (tokenizer_of rows)))"
    by (simp add: distinct_map)
  have "(w, i) \<in> set (word_index (tokenizer_of rows))" using a by (rule map_of_SomeD)
  moreover have "(w', i) \<in> set (word_index (tokenizer_of rows))" using b by (rule map_of_SomeD)
  ultimately have "(w, i) = (w', i)" using inj by (intro inj_onD [OF inj]) simp_all
  then show ?thesis by simp
qed

lemma in_vocabulary_tokenizer_of:
  "in_vocabulary (tokenizer_of rows) w \<longleftrightarrow>
     (\<exists>i. map_of (word_index (tokenizer_of rows)) w = Some i \<and> 0 < i \<and> i < MAX_NUM_WORDS)"
  using word_index_positive [of rows w]
  by (auto simp: in_vocabulary_def num_words_tokenizer_of beyond_cap_def MAX_NUM_WORDS_def
      split: option.splits)

lemma card_in_vocabulary:
  "finite {w. in_vocabulary (tokenizer_of rows) w} \<and>
   card {w. in_vocabulary (tokenizer_of rows) w} < MAX_NUM_WORDS"
proof -
  let ?A = "{w. in_vocabulary (tokenizer_of rows) w}"
  let ?f = "\<lambda>w. the (map_of (word_index (tokenizer_of rows)) w)"
  have sub: "?A \<subseteq> fst ` set (word_index (tokenizer_of rows))"
    by (auto simp: in_vocabulary_tokenizer_of dest!: map_of_SomeD intro: rev_image_eqI)
  then have fin: "finite ?A" by (rule finite_subset) simp
  have inj: "inj_on ?f ?A"
    by (rule inj_onI) (auto simp: in_vocabulary_tokenizer_of intro: word_index_injective)
  have img: "?f ` ?A \<subseteq> {1..<MAX_NUM_WORDS}"
    by (auto simp: in_vocabulary_tokenizer_of)
  have "card ?A \<le> card {1..<MAX_NUM_WORDS}"
    using inj img by (rule card_inj_on_le) simp
  then show ?thesis using fin by (simp add: MAX_NUM_WORDS_def)
qed


lemma length_map_filter: "length (List.map_filter f xs) = length (filter (\<lambda>x. f x \<noteq> None) xs)"
  by (simp add: List.map_filter_def)

lemma text_to_sequence_example:
  "text_to_sequence (tokenizer_of example_rows) ''free zzz phone'' = [1, 9]"
  by code_simp

text \<open>
  Claim C5. For every input text, the sequence the preparer's tokenizer produces holds,
  in order, the index of each word of the text that is in the vocabulary and nothing for
  a word that is not: out-of-vocabulary words are dropped and no placeholder is put in
  their place, so the sequence is as long as the text has in-vocabulary words. Every
  index in a produced sequence is positive and strictly below the cap 280.
\<close>

theorem sequences_within_vocabulary:
  "text_to_sequence (tokenizer_of rows) text =
     List.map_filter
       (\<lambda>w. if in_vocabulary (tokenizer_of rows) w
            then map_of (word_index (tokenizer_of rows)) w else None)
       (text_to_word_sequence text) \<and>
   length (text_to_sequence (tokenizer_of rows) text) =
     length (filter (in_vocabulary (tokenizer_of rows)) (text_to_word_sequence text)) \<and>
   (\<forall>i\<in>set (text_to_sequence (tokenizer_of rows) text). 0 < i \<and> i < 280) \<and>
   sequences_of rows = map (text_to_sequence (tokenizer_of rows)) (map snd rows)"
proof -
  let ?tk = "tokenizer_of rows"
  let ?f = "\<lambda>w. if in_vocabulary ?tk w then map_of (word_index ?tk) w else None"
  have a: "text_to_sequence ?tk text = List.map_filter ?f (text_to_word_sequence text)"
    by (rule text_to_sequence_map_filter)
  have "(\<lambda>w. ?f w \<noteq> None) = in_vocabulary ?tk"
    by (auto simp: fun_eq_iff in_vocabulary_def split: option.splits)
  then have b: "length (text_to_sequence ?tk text) =
     length (filter (in_vocabulary ?tk) (text_to_word_sequence text))"
    unfolding a length_map_filter by simp
  have c: "\<forall>i\<in>set (text_to_sequence ?tk text). 0 < i \<and> i < 280"
  proof
    fix i assume "i \<in> set (text_to_sequence ?tk text)"
    then obtain w where w: "map_of (word_index ?tk) w = Some i"
      and cap: "\<not> beyond_cap (num_words ?tk) i"
      using text_to_sequence_member by blast
    have "0 < i" using w by (rule word_index_positive)
    moreover have "i < 280"
      using cap by (simp add: num_words_tokenizer_of beyond_cap_def MAX_NUM_WORDS_def)
    ultimately show "0 < i \<and> i < 280" by simp
  qed
  have e: "sequences_of rows = map (text_to_sequence ?tk) (map snd rows)"
    by (simp add: sequences_of_def texts_to_sequences_def)
  show ?thesis using a b c e by (intro conjI)
qed

theorem sequences_within_vocabulary_witness:
  "text_to_sequence (tokenizer_of example_rows) ''free zzz phone'' = [1, 9] \<and>
   length (text_to_word_sequence ''free zzz phone'') = 3 \<and>
   length (filter (in_vocabulary (tokenizer_of example_rows))
             (text_to_word_sequence ''free zzz phone'')) = 2"
proof -
  have w: "length (text_to_word_sequence ''free zzz phone'') = 3" by code_simp
  have "length (text_to_sequence (tokenizer_of example_rows) ''free zzz phone'') =
     length (filter (in_vocabulary (tokenizer_of example_rows))
               (text_to_word_sequence ''free zzz phone''))"
    using sequences_within_vocabulary [of example_rows "''free zzz phone''"] by (elim conjE)
  then have "length (filter (in_vocabulary (tokenizer_of example_rows))
             (text_to_word_sequence ''free zzz phone'')) = 2"
    by (simp add: text_to_sequence_example)
  then show ?thesis using text_to_sequence_example w by (intro conjI)
qed

subsection \<open>The size of the word index\<close>

lemma split_sep_word: "sep \<notin> set w \<Longrightarrow> split_sep sep w = [w]"
  by (induction w) auto

lemma text_to_word_sequence_letters:
  "text_to_word_sequence (replicate (Suc k) (CHR ''a'')) = [replicate (Suc k) (CHR ''a'')]"
proof -
  have l: "lower_char (CHR ''a'') = CHR ''a''" by (simp add: lower_char_def)
  have f: "CHR ''a'' \<notin> set filters" by (simp add: filters_def)
  have "map (\<lambda>c. if c \<in> set filters then CHR '' '' else c)
          (map lower_char (replicate (Suc k) (CHR ''a''))) = replicate (Suc k) (CHR ''a'')"
    using l f by simp
  moreover have "split_sep (CHR '' '') (replicate (Suc k) (CHR ''a'')) = [replicate (Suc k) (CHR ''a'')]"
    by (rule split_sep_word) simp
  ultimately show ?thesis by (simp only: text_to_word_sequence_def) simp
qed

lemma length_word_index:
  "length (word_index (tokenizer_of rows)) =
     card (set (concat (map text_to_word_sequence (map snd rows))))"
proof -
  obtain voc where wi: "word_index (tokenizer_of rows) = zip voc [1 ..< Suc (length voc)]"
    and d: "distinct voc" and s: "set voc = set (concat (map text_to_word_sequence (map snd rows)))"
    using word_index_fit [of "Some MAX_NUM_WORDS" "map snd rows"] by (auto simp: tokenizer_of_def)
  have "length (word_index (tokenizer_of rows)) = length voc"
    by (simp add: wi del: upt_Suc)
  also have "\<dots> = card (set voc)" using d by (simp add: distinct_card)
  finally show ?thesis by (simp only: s)
qed

lemma many_words_count:
  "card (set (concat (map text_to_word_sequence (map snd many_words_rows)))) = 281"
proof -
  let ?g = "\<lambda>k. replicate (Suc k) (CHR ''a'')"
  have "concat (map text_to_word_sequence (map snd many_words_rows)) = map ?g [0 ..< 281]"
    by (simp add: many_words_rows_def comp_def text_to_word_sequence_letters del: replicate_Suc upt_Suc)
  moreover have "inj_on ?g {0 ..< 281}"
    by (rule inj_onI) (metis length_replicate nat.inject)
  ultimately show ?thesis by (simp add: card_image del: replicate_Suc)
qed

text \<open>
  The word index itself is not capped: \<^verbatim>\<open>fit_on_texts\<close> gives an index to every
  distinct word of the corpus, whatever \<^verbatim>\<open>num_words\<close> is. On a file with 281 different
  words the word index of the preparer's tokenizer has 281 entries, more than the cap 280.
\<close>

lemma word_index_exceeds_cap:
  "length (word_index (tokenizer_of many_words_rows)) = 281 \<and>
   \<not> length (word_index (tokenizer_of many_words_rows)) \<le> MAX_NUM_WORDS"
  by (simp only: length_word_index many_words_count MAX_NUM_WORDS_def) simp

subsection \<open>The model and its training\<close>



lemma trainingData_row_lengths:
  assumes d: "trainingData permutation rows = Inr data"
  shows "\<forall>r\<in>set (X_train data). length r = 300"
proof -
  obtain X y where X: "X_of rows = Inr X"
    and s: "train_test_split permutation X y = Inr (X_train data, X_test data, y_train data, y_test data)"
    using trainingData_InrD(6) [OF d] by blast
  have "\<forall>r\<in>set X. length r = 300" using X_of_InrD(2) [OF X] by (simp add: MAX_SEQ_LENGTH_def)
  then show ?thesis using train_test_split_rows(1) [OF s] by auto
qed

lemma define_model_Inr:
  assumes d: "trainingData permutation rows = Inr data" and m: "define_model data = Inr model"
  shows "model =
           \<lparr>layers = [Embedding 280 128 300,
                       SpatialDropout1D (4 / 10),
                       LSTM 196 (3 / 10) (3 / 10),
                       Dense 2 ''softmax''],
             loss = Some ''categorical_crossentropy'',
             optimizer = Some ''adam'',
             metrics = [''accuracy'']\<rparr>"
proof -
  obtain r rs where rs: "X_train data = r # rs"
    using m by (cases "X_train data") (auto simp: define_model_def shape1_def)
  have "length r = 300" using trainingData_row_lengths [OF d] rs by simp
  then have sh: "shape1 (X_train data) = Inr 300" by (simp add: shape1_def rs)
  have mw: "max_words data = 280" using trainingData_InrD(1) [OF d] by (simp add: MAX_NUM_WORDS_def)
  show ?thesis
    using m by (simp add: define_model_def sh mw model_compile_def model_add_def
        Sequential_init_def embedDim_def LstmOut_def)
qed

lemma define_model_nonempty:
  assumes d: "trainingData permutation rows = Inr data" and x: "X_train data \<noteq> []"
  shows "\<exists>model. define_model data = Inr model"
  using x by (cases "X_train data") (auto simp: define_model_def shape1_def)

lemma output_units_model:
  "output_units \<lparr>layers = [Embedding 280 128 300,
                       SpatialDropout1D (4 / 10),
                       LSTM 196 (3 / 10) (3 / 10),
                       Dense 2 ''softmax''],
             loss = Some ''categorical_crossentropy'',
             optimizer = Some ''adam'',
             metrics = [''accuracy'']\<rparr> = Some 2"
  by (simp add: output_units_def)







subsection \<open>The label matrix of an all-ham file\<close>

lemma all_ham_rows_ok:
  "set (map fst all_ham_rows) \<subseteq> {''ham'', ''spam''}" "2 \<le> length all_ham_rows"
  "length all_ham_rows = 2"
  by (simp_all add: all_ham_rows_def)

lemma all_ham_trainingData:
  "\<exists>data. trainingData example_permutation all_ham_rows = Inr data"
proof (rule trainingData_Inr)
  show "set (map fst all_ham_rows) \<subseteq> {''ham'', ''spam''}" by (rule all_ham_rows_ok(1))
  show "2 \<le> length all_ham_rows" by (rule all_ham_rows_ok(2))
  show "sort (example_permutation (length all_ham_rows)) = [0..<length all_ham_rows]"
    by (rule example_permutation_sort)
qed

lemma split_indices_example_2: "split_indices example_permutation 2 = ([0], [1])"
  by code_simp

text \<open>
  Claim C3. The claim asks for a label matrix with one row per record, each row a single
  1 among zeroes, and 2 columns, the number of classes; the notebook's own text says the
  label column "will become two columns", and the trainer's output layer has 2 units.
  The code does not pass the number of classes to \<^verbatim>\<open>to_categorical\<close>, which then
  takes the largest label present plus one. On a file whose records are all labelled ham
  the matrix \<open>y\<close> has a single column, so have the label matrices of the bundle, and
  the trainer's \<^verbatim>\<open>fit\<close> raises on them.
\<close>

theorem one_hot_all_ham_single_column:
  "y_of all_ham_rows = Inr [[1], [1]] \<and>
   map_sum id (map length) (y_of all_ham_rows) = Inr [1, 1] \<and>
   (\<exists>data. trainingData example_permutation all_ham_rows = Inr data \<and>
      y_train data = [[1]] \<and> y_test data = [[1]] \<and>
      train_model data = Inl ValueError)"
proof -
  obtain data where d: "trainingData example_permutation all_ham_rows = Inr data"
    using all_ham_trainingData by blast
  have p: "sort (example_permutation (length all_ham_rows)) = [0..<length all_ham_rows]"
    by (rule example_permutation_sort)
  obtain X y where X: "X_of all_ham_rows = Inr X" and y: "y_of all_ham_rows = Inr y"
    and s: "train_test_split example_permutation X y =
              Inr (X_train data, X_test data, y_train data, y_test data)"
    using trainingData_InrD(6) [OF d] by blast
  have y': "y = [[1], [1]]" using y by (simp add: y_of_all_ham)
  have lX: "length X = 2" using X_of_InrD(1) [OF X] by (simp add: all_ham_rows_ok(3))
  have ytr: "y_train data = [[1]]" and yte: "y_test data = [[1]]"
    using train_test_split_InrD(5,6) [OF s] by (simp_all add: lX split_indices_example_2 y')
  have l1: "length (X_train data) = length (y_train data)"
    using train_test_split_InrD(3,5) [OF s] by simp
  have ne: "X_train data \<noteq> []" using l1 ytr by auto
  obtain model where m: "define_model data = Inr model"
    using define_model_nonempty [OF d ne] by blast
  have "output_units model = Some 2"
    using define_model_Inr [OF d m] output_units_model by simp
  then have "model_fit model (X_train data) (y_train data) (X_test data, y_test data)
               batchSize epochs = Inl ValueError"
    by (simp add: model_fit_def ytr)
  then have t: "train_model data = Inl ValueError" by (simp add: train_model_def m)
  have a: "map_sum id (map length) (y_of all_ham_rows) = Inr [1, 1]" by (simp add: y_of_all_ham)
  show ?thesis using y_of_all_ham a d ytr yte t by (intro conjI exI [of _ data])
qed

end
